theory Spec2Isabelle
  imports Complex_Main "HOL-Library.Log_Nat"
begin

section \<open>Strings\<close>

text \<open>
  A Python \<open>str\<close> is modelled as a \<open>string\<close>: one \<open>char\<close> stands for one code
  point below 256. \<open>isspace\<close> is Python's whitespace class on these code points
  (the one \<open>str.split()\<close> and the regular expression class \<open>\s\<close> both use):
  TAB, LF, VT, FF, CR, the separators 28 to 31, the blank, NEL (133) and the
  no-break blank (160).
\<close>

definition isspace :: "char \<Rightarrow> bool" where
  "isspace c =
     (let n = (of_char c :: nat)
      in (9 \<le> n \<and> n \<le> 13) \<or> (28 \<le> n \<and> n \<le> 32) \<or> n = 133 \<or> n = 160)"

text \<open>
  \<open>text.split()\<close> without arguments: the maximal runs of non-whitespace
  characters, in order; never an empty word. \<open>split_acc cur s\<close> scans \<open>s\<close>
  with the word under construction in \<open>cur\<close>.
\<close>

fun split_acc :: "string \<Rightarrow> string \<Rightarrow> string list" where
  "split_acc cur [] = (if cur = [] then [] else [cur])"
| "split_acc cur (c # cs) =
     (if isspace c
      then (if cur = [] then split_acc [] cs else cur # split_acc [] cs)
      else split_acc (cur @ [c]) cs)"

definition py_split :: "string \<Rightarrow> string list" where
  "py_split s = split_acc [] s"

text \<open>\<open>' '.join(ws)\<close>.\<close>

fun join :: "string list \<Rightarrow> string" where
  "join [] = []"
| "join [w] = w"
| "join (w # v # ws) = w @ CHR '' '' # join (v # ws)"

section \<open>The generator and its collaborators\<close>

text \<open>
  The constants of \<open>ImageConfig\<close> that the layout code reads. They are
  parameters of the model; \<open>config_example\<close> holds the values of
  \<open>config_example.py\<close>.
\<close>

record image_config =
  LINE_SPACING :: int
  MIN_AUTO_FONT_SIZE :: int
  MAX_AUTO_FONT_SIZE :: int
  AUTO_SIZE_PADDING :: int
  AUTO_SIZE_PADDING_BOTTOM :: int

definition config_example :: image_config where
  "config_example =
     \<lparr>LINE_SPACING = 10, MIN_AUTO_FONT_SIZE = 10, MAX_AUTO_FONT_SIZE = 200,
      AUTO_SIZE_PADDING = 10, AUTO_SIZE_PADDING_BOTTOM = 35\<rparr>"

text \<open>The fields of an \<open>ImageGenerator\<close> instance.\<close>

record image_generator =
  width :: int
  height :: int
  padding_top :: int
  padding_bottom :: int
  padding_left :: int
  padding_right :: int
  config :: image_config

text \<open>
  Text measurement is the imaging library's \<open>draw.textbbox(xy, text, font=font)\<close>.
  It is a parameter \<open>textbbox font xy text\<close> of every function that measures,
  returning the box \<open>(left, top, right, bottom)\<close> in pixels.
\<close>

type_synonym bbox = "int \<times> int \<times> int \<times> int"

type_synonym 'font measurer = "'font \<Rightarrow> int \<times> int \<Rightarrow> string \<Rightarrow> bbox"

definition bbox_width :: "bbox \<Rightarrow> int" where
  "bbox_width b = (case b of (l, t, r, bo) \<Rightarrow> r - l)"


section \<open>Plain-text wrapping\<close>

text \<open>
  The loop of \<open>_wrap_text_for_size\<close> over the words, with the state
  \<open>(lines, current_line)\<close>.
\<close>

fun wrap_for_size_loop ::
  "'font measurer \<Rightarrow> 'font \<Rightarrow> int \<Rightarrow> string list \<Rightarrow> string list \<Rightarrow> string list
    \<Rightarrow> string list \<times> string list" where
  "wrap_for_size_loop textbbox font max_width [] lines current_line = (lines, current_line)"
| "wrap_for_size_loop textbbox font max_width (word # words) lines current_line =
     (let test_line = join (current_line @ [word]);
          text_width = bbox_width (textbbox font (0, 0) test_line)
      in if text_width \<le> max_width
         then wrap_for_size_loop textbbox font max_width words lines (current_line @ [word])
         else if current_line \<noteq> []
         then wrap_for_size_loop textbbox font max_width words
                (lines @ [join current_line]) [word]
         else wrap_for_size_loop textbbox font max_width words (lines @ [word]) current_line)"

definition wrap_text_for_size ::
  "'font measurer \<Rightarrow> string \<Rightarrow> 'font \<Rightarrow> int \<Rightarrow> string list" where
  "wrap_text_for_size textbbox text font max_width =
     (let words = py_split text;
          (lines, current_line) = wrap_for_size_loop textbbox font max_width words [] [];
          lines = (if current_line \<noteq> [] then lines @ [join current_line] else lines)
      in if lines \<noteq> [] then lines else [text])"

text \<open>The loop of \<open>_wrap_text\<close>, written out a second time in the source.\<close>

fun wrap_loop ::
  "'font measurer \<Rightarrow> 'font \<Rightarrow> int \<Rightarrow> string list \<Rightarrow> string list \<Rightarrow> string list
    \<Rightarrow> string list \<times> string list" where
  "wrap_loop textbbox font max_width [] lines current_line = (lines, current_line)"
| "wrap_loop textbbox font max_width (word # words) lines current_line =
     (let test_line = join (current_line @ [word]);
          text_width = bbox_width (textbbox font (0, 0) test_line)
      in if text_width \<le> max_width
         then wrap_loop textbbox font max_width words lines (current_line @ [word])
         else if current_line \<noteq> []
         then wrap_loop textbbox font max_width words (lines @ [join current_line]) [word]
         else wrap_loop textbbox font max_width words (lines @ [word]) current_line)"

definition wrap_text ::
  "image_generator \<Rightarrow> 'font measurer \<Rightarrow> string \<Rightarrow> 'font \<Rightarrow> string list" where
  "wrap_text self textbbox text font =
     (let max_width = width self - (padding_left self + padding_right self);
          words = py_split text;
          (lines, current_line) = wrap_loop textbbox font max_width words [] [];
          lines = (if current_line \<noteq> [] then lines @ [join current_line] else lines)
      in if lines \<noteq> [] then lines else [text])"

section \<open>Automatic font size\<close>







section \<open>Markup\<close>

record TextSegment =
  "text" :: string
  bold :: bool
  italic :: bool
  underline :: bool

text \<open>\<open>TextSegment(text=t)\<close>, the three flags at their default.\<close>

definition plain_segment :: "string \<Rightarrow> TextSegment" where
  "plain_segment t = \<lparr>text = t, bold = False, italic = False, underline = False\<rparr>"

text \<open>
  The character class \<open>[biu]\<close> under \<open>re.IGNORECASE\<close>, and \<open>str.lower()\<close> on
  the letters it matches.
\<close>

definition tag_letter :: "char \<Rightarrow> bool" where
  "tag_letter c = (c \<in> set ''biuBIU'')"

definition lower_char :: "char \<Rightarrow> char" where
  "lower_char c =
     (let n = (of_char c :: nat) in if 65 \<le> n \<and> n \<le> 90 then char_of (n + 32) else c)"

text \<open>
  One attempt of the pattern \<open><(/?)([biu])\s*/?>\<close> at the head of \<open>s\<close>: the
  two groups and the length of the match. Each of \<open>/?\<close>, \<open>\s*\<close> and \<open>/?\<close>
  is greedy, and none can give back what it took, since the character that
  has to follow is outside its own class.
\<close>

definition match_tag :: "string \<Rightarrow> (string \<times> string \<times> nat) option" where
  "match_tag s =
     (case s of
        [] \<Rightarrow> None
      | c0 # r1 \<Rightarrow>
          if c0 \<noteq> CHR ''<'' then None
          else
            let (group1, r2) =
                  (case r1 of
                     [] \<Rightarrow> ([], r1)
                   | c # r \<Rightarrow> if c = CHR ''/'' then ([c], r) else ([], r1))
            in (case r2 of
                  [] \<Rightarrow> None
                | c # r3 \<Rightarrow>
                    if \<not> tag_letter c then None
                    else
                      let r4 = dropWhile isspace r3;
                          r5 = (case r4 of
                                  [] \<Rightarrow> r4
                                | d # r \<Rightarrow> if d = CHR ''/'' then r else r4)
                      in (case r5 of
                            [] \<Rightarrow> None
                          | e # rest \<Rightarrow>
                              if e = CHR ''>''
                              then Some (group1, [c], length s - length rest)
                              else None)))"

lemma dropWhile_eq_length: "dropWhile P xs = ys \<Longrightarrow> length ys \<le> length xs"
  using length_dropWhile_le [of P xs] by simp

lemma match_tag_length:
  "match_tag s = Some (g1, g2, n) \<Longrightarrow> 0 < n \<and> n \<le> length s"
  by (auto simp: match_tag_def Let_def split: list.splits if_splits prod.splits
      dest!: dropWhile_eq_length)

text \<open>
  \<open>re.finditer(tag_pattern, text, re.IGNORECASE)\<close>: the matches from left to
  right, each search resuming where the previous match ended. \<open>finditer pos s\<close>
  scans the rest \<open>s\<close> of the text, which starts at index \<open>pos\<close>.
\<close>

record re_match =
  m_start :: nat
  m_end :: nat
  group1 :: string
  group2 :: string

function finditer :: "nat \<Rightarrow> string \<Rightarrow> re_match list" where
  "finditer pos [] = []"
| "finditer pos (c # cs) =
     (case match_tag (c # cs) of
        Some (g1, g2, n) \<Rightarrow>
          \<lparr>m_start = pos, m_end = pos + n, group1 = g1, group2 = g2\<rparr>
            # finditer (pos + n) (drop n (c # cs))
      | None \<Rightarrow> finditer (Suc pos) cs)"
  by pat_completeness auto
termination
  by (relation "measure (\<lambda>(pos, s). length s)") (auto dest: match_tag_length)

text \<open>\<open>text[a:b]\<close> for \<open>0 \<le> a \<le> b\<close>.\<close>

definition slice :: "string \<Rightarrow> nat \<Rightarrow> nat \<Rightarrow> string" where
  "slice s a b = take (b - a) (drop a s)"

text \<open>
  The segment that both branches of the loop and the end of the function
  append: the accumulated text with the flags read off the stack.
\<close>

definition stack_segment :: "string \<Rightarrow> string list \<Rightarrow> TextSegment" where
  "stack_segment current_text format_stack =
     \<lparr>text = current_text,
      bold = (''b'' \<in> set format_stack),
      italic = (''i'' \<in> set format_stack),
      underline = (''u'' \<in> set format_stack)\<rparr>"

text \<open>
  The loop of \<open>parse_html_formatting\<close> over the matches, with the state
  \<open>(format_stack, segments, current_text, last_pos)\<close>. \<open>list.remove\<close> deletes
  the first occurrence.
\<close>

fun parse_loop ::
  "string \<Rightarrow> re_match list \<Rightarrow> string list \<Rightarrow> TextSegment list \<Rightarrow> string \<Rightarrow> nat
    \<Rightarrow> string list \<times> TextSegment list \<times> string \<times> nat" where
  "parse_loop txt [] format_stack segments current_text last_pos =
     (format_stack, segments, current_text, last_pos)"
| "parse_loop txt (m # ms) format_stack segments current_text last_pos =
     (let current_text =
            (if m_start m > last_pos then current_text @ slice txt last_pos (m_start m)
             else current_text);
          is_closing = (group1 m \<noteq> []);
          tag_name = map lower_char (group2 m)
      in if \<not> is_closing
         then
           let segments =
                 (if current_text \<noteq> []
                  then segments @ [stack_segment current_text format_stack] else segments);
               current_text = (if current_text \<noteq> [] then [] else current_text)
           in parse_loop txt ms (format_stack @ [tag_name]) segments current_text (m_end m)
         else
           let segments =
                 (if current_text \<noteq> []
                  then segments @ [stack_segment current_text format_stack] else segments);
               current_text = (if current_text \<noteq> [] then [] else current_text);
               format_stack =
                 (if tag_name \<in> set format_stack then remove1 tag_name format_stack
                  else format_stack)
           in parse_loop txt ms format_stack segments current_text (m_end m))"

definition parse_html_formatting :: "string \<Rightarrow> TextSegment list" where
  "parse_html_formatting txt =
     (if txt = [] \<or> CHR ''<'' \<notin> set txt then [plain_segment txt]
      else
        let (format_stack, segments, current_text, last_pos) =
              parse_loop txt (finditer 0 txt) [] [] [] 0;
            current_text =
              (if last_pos < length txt then current_text @ drop last_pos txt
               else current_text);
            segments =
              (if current_text \<noteq> []
               then segments @ [stack_segment current_text format_stack] else segments)
        in if segments \<noteq> [] then segments else [plain_segment txt])"

text \<open>
  \<open>has_html_tags\<close> searches for the other pattern, \<open><[biu].*?>\<close>, again with
  \<open>re.IGNORECASE\<close>. \<open>dot_star_gt s\<close> says whether \<open>.*?>\<close> matches at the head
  of \<open>s\<close>; the dot matches every character but the line feed.
\<close>

fun dot_star_gt :: "string \<Rightarrow> bool" where
  "dot_star_gt [] = False"
| "dot_star_gt (c # cs) = (c = CHR ''>'' \<or> (c \<noteq> CHR 0x0A \<and> dot_star_gt cs))"

definition match_open :: "string \<Rightarrow> bool" where
  "match_open s =
     (case s of
        c0 # c1 # rest \<Rightarrow> c0 = CHR ''<'' \<and> tag_letter c1 \<and> dot_star_gt rest
      | _ \<Rightarrow> False)"

fun re_search_open :: "string \<Rightarrow> bool" where
  "re_search_open [] = False"
| "re_search_open (c # cs) = (match_open (c # cs) \<or> re_search_open cs)"

definition has_html_tags :: "string \<Rightarrow> bool" where
  "has_html_tags txt = (if txt = [] then False else re_search_open txt)"

text \<open>
  What the parser takes for an opening tag: a match of its own pattern with
  an empty first group, somewhere in the text.
\<close>

definition opening_tag_at :: "string \<Rightarrow> nat \<Rightarrow> bool" where
  "opening_tag_at txt i =
     (case match_tag (drop i txt) of Some (g1, g2, n) \<Rightarrow> g1 = [] | None \<Rightarrow> False)"

definition contains_opening_tag :: "string \<Rightarrow> bool" where
  "contains_opening_tag txt = list_ex (opening_tag_at txt) [0..<length txt]"

section \<open>Wrapping formatted segments\<close>




section \<open>Drawing formatted lines\<close>

text \<open>
  Drawing appends to the canvas; the model returns the calls made on \<open>draw\<close>,
  in order. \<open>DrawText xy text fill font stroke_width\<close> is
  \<open>draw.text(xy, text, fill=fill, font=font, stroke_width=stroke_width)\<close> (the
  stroke width is 0 when the call does not pass one), and
  \<open>DrawLine p q fill width\<close> is \<open>draw.line([p, q], fill=fill, width=width)\<close>.
\<close>

type_synonym color = "int \<times> int \<times> int"

datatype 'font draw_op =
  DrawText "int \<times> int" string color 'font int
| DrawLine "int \<times> int" "int \<times> int" color int

text \<open>The first loop of \<open>_draw_formatted_line_segments\<close>: the width of the line.\<close>

fun formatted_line_width ::
  "'font measurer \<Rightarrow> (string option \<Rightarrow> int \<Rightarrow> bool \<Rightarrow> bool \<Rightarrow> 'font) \<Rightarrow> string option \<Rightarrow> int
    \<Rightarrow> TextSegment list \<Rightarrow> int \<Rightarrow> int" where
  "formatted_line_width textbbox get_formatted_font font_path font_size [] total_width =
     total_width"
| "formatted_line_width textbbox get_formatted_font font_path font_size (segment # segments)
     total_width =
     (let font = get_formatted_font font_path font_size (bold segment) (italic segment);
          bbox = textbbox font (0, 0) (text segment)
      in formatted_line_width textbbox get_formatted_font font_path font_size segments
           (total_width + bbox_width bbox))"

text \<open>
  The second loop: the segments are drawn from \<open>current_x\<close> on, each starting
  where the box of the previous one ends. A stroke colour is a tuple of three
  channels or \<open>None\<close>, so it is true exactly when it is given.
\<close>

fun draw_formatted_segments ::
  "'font measurer \<Rightarrow> (string option \<Rightarrow> int \<Rightarrow> bool \<Rightarrow> bool \<Rightarrow> 'font) \<Rightarrow> string option \<Rightarrow> int
    \<Rightarrow> int \<Rightarrow> color \<Rightarrow> int \<Rightarrow> color option \<Rightarrow> TextSegment list \<Rightarrow> int
    \<Rightarrow> 'font draw_op list" where
  "draw_formatted_segments textbbox get_formatted_font font_path font_size y text_color
     stroke_width stroke_color [] current_x = []"
| "draw_formatted_segments textbbox get_formatted_font font_path font_size y text_color
     stroke_width stroke_color (segment # segments) current_x =
     (if text segment \<noteq> []
      then
        let font = get_formatted_font font_path font_size (bold segment) (italic segment);
            stroke =
              (case stroke_color of
                 Some c \<Rightarrow>
                   if stroke_width > 0
                   then [DrawText (current_x, y) (text segment) c font stroke_width] else []
               | None \<Rightarrow> []);
            rule =
              (if underline segment
               then
                 (case textbbox font (current_x, y) (text segment) of
                    (l, t, r, b) \<Rightarrow> [DrawLine (l, b + 1) (r, b + 1) text_color 1])
               else []);
            fill = [DrawText (current_x, y) (text segment) text_color font 0];
            next_x = (case textbbox font (current_x, y) (text segment) of (l, t, r, b) \<Rightarrow> r)
        in stroke @ rule @ fill
             @ draw_formatted_segments textbbox get_formatted_font font_path font_size y
                 text_color stroke_width stroke_color segments next_x
      else draw_formatted_segments textbbox get_formatted_font font_path font_size y
             text_color stroke_width stroke_color segments current_x)"

definition draw_formatted_line_segments ::
  "image_generator \<Rightarrow> 'font measurer \<Rightarrow> (string option \<Rightarrow> int \<Rightarrow> bool \<Rightarrow> bool \<Rightarrow> 'font)
    \<Rightarrow> TextSegment list \<Rightarrow> int \<Rightarrow> color \<Rightarrow> string \<Rightarrow> int \<Rightarrow> color option
    \<Rightarrow> string option \<Rightarrow> int \<Rightarrow> 'font draw_op list" where
  "draw_formatted_line_segments self textbbox get_formatted_font line_segments y text_color
     alignment stroke_width stroke_color font_path font_size =
     (let total_width =
            formatted_line_width textbbox get_formatted_font font_path font_size
              line_segments 0;
          current_x =
            (if alignment = ''center'' then (width self - total_width) div 2
             else if alignment = ''left'' then padding_left self
             else if alignment = ''right'' then width self - total_width - padding_right self
             else (width self - total_width) div 2)
      in draw_formatted_segments textbbox get_formatted_font font_path font_size y text_color
           stroke_width stroke_color line_segments current_x)"

section \<open>Floating point\<close>




section \<open>Stroke settings\<close>






section \<open>Drawing plain lines\<close>










section \<open>Properties under study\<close>

text \<open>A word: what \<open>split()\<close> returns, non-empty and free of whitespace.\<close>

definition is_word :: "string \<Rightarrow> bool" where
  "is_word w = (w \<noteq> [] \<and> list_all (\<lambda>c. \<not> isspace c) w)"

text \<open>What the end of both wrapping functions does with the state of the loop.\<close>

definition finish :: "string list \<times> string list \<Rightarrow> string list" where
  "finish st =
     (case st of (lines, current_line) \<Rightarrow>
        if current_line \<noteq> [] then lines @ [join current_line] else lines)"

text \<open>
  A line of \<open>_wrap_text\<close> is within the budget, or it is one word of the text
  that is wider than the budget by itself.
\<close>

definition within_or_overlong ::
  "image_generator \<Rightarrow> 'font measurer \<Rightarrow> 'font \<Rightarrow> string \<Rightarrow> string \<Rightarrow> bool" where
  "within_or_overlong self textbbox font txt line =
     (let max_width = width self - (padding_left self + padding_right self);
          line_width = bbox_width (textbbox font (0, 0) line)
      in line_width \<le> max_width
         \<or> (line \<in> set (py_split txt) \<and> py_split line = [line] \<and> max_width < line_width))"












text \<open>
  A fixed-pitch font for concrete runs: the font is its size, every character
  is \<open>size\<close> pixels wide and a line is \<open>size\<close> pixels high. The generator is
  the default one of the display, 240 by 240 pixels with the paddings of
  \<open>config_example.py\<close>.
\<close>

definition mono_textbbox :: "int measurer" where
  "mono_textbbox font xy s =
     (case xy of (x, y) \<Rightarrow> (x, y, x + font * int (length s), y + font))"

definition mono_font :: "string option \<Rightarrow> int \<Rightarrow> int" where
  "mono_font font_path font_size = font_size"


definition display_generator :: image_generator where
  "display_generator =
     \<lparr>width = 240, height = 240, padding_top = 0, padding_bottom = 25, padding_left = 0,
      padding_right = 0, config = config_example\<rparr>"

section \<open>Splitting and joining\<close>

lemma split_acc_word_prefix:
  "\<forall>c \<in> set w. \<not> isspace c \<Longrightarrow> split_acc acc (w @ s) = split_acc (acc @ w) s"
  by (induction w arbitrary: acc) auto

lemma split_acc_space:
  "isspace sp \<Longrightarrow> split_acc acc (a @ sp # b) = split_acc acc a @ py_split b"
  by (induction a arbitrary: acc) (auto simp: py_split_def)

lemma py_split_word: "is_word w \<Longrightarrow> py_split w = [w]"
  using split_acc_word_prefix [of w "[]" "[]"]
  by (simp add: is_word_def py_split_def list_all_iff)

lemma split_acc_words:
  "list_all (\<lambda>c. \<not> isspace c) acc \<Longrightarrow> list_all is_word (split_acc acc s)"
  by (induction s arbitrary: acc) (auto simp: is_word_def)

lemma py_split_words: "list_all is_word (py_split s)"
  by (simp add: py_split_def split_acc_words)

lemma py_split_join_lines: "py_split (join ls) = concat (map py_split ls)"
proof (induction ls rule: join.induct)
  case (3 w v ws)
  have "isspace CHR '' ''" by (simp add: isspace_def)
  then have "py_split (w @ CHR '' '' # join (v # ws)) = py_split w @ py_split (join (v # ws))"
    using split_acc_space [of "CHR '' ''" "[]" w] by (simp add: py_split_def)
  with 3 show ?case by simp
qed (simp_all add: py_split_def)

lemma py_split_join_words: "list_all is_word ws \<Longrightarrow> py_split (join ws) = ws"
proof -
  assume "list_all is_word ws"
  then have "concat (map py_split ws) = ws"
    by (induction ws) (simp_all add: py_split_word)
  then show ?thesis by (simp add: py_split_join_lines)
qed

section \<open>Plain wrapping: words and lines\<close>

lemma wrap_loop_eq:
  "wrap_loop bb font mw words lines current_line
     = wrap_for_size_loop bb font mw words lines current_line"
  by (induction words arbitrary: lines current_line) (simp_all add: Let_def)

lemma wrap_text_eq:
  "wrap_text self bb txt font
     = wrap_text_for_size bb txt font (width self - (padding_left self + padding_right self))"
  by (simp add: wrap_text_def wrap_text_for_size_def wrap_loop_eq)

lemma wrap_loop_words:
  "list_all is_word words \<Longrightarrow> list_all is_word current_line \<Longrightarrow>
   concat (map py_split (finish (wrap_for_size_loop bb font mw words lines current_line)))
     = concat (map py_split lines) @ current_line @ words"
proof (induction words arbitrary: lines current_line)
  case Nil
  then show ?case by (simp add: finish_def py_split_join_words)
next
  case (Cons word words)
  then show ?case
    by (simp add: Let_def py_split_join_words py_split_word)
qed

lemma wrap_loop_nonempty:
  "lines \<noteq> [] \<or> current_line \<noteq> [] \<or> words \<noteq> [] \<Longrightarrow>
   finish (wrap_for_size_loop bb font mw words lines current_line) \<noteq> []"
  by (induction words arbitrary: lines current_line) (auto simp: finish_def Let_def)

lemma wrap_text_for_size_unfold:
  "wrap_text_for_size bb txt font mw =
     (if py_split txt = [] then [txt]
      else finish (wrap_for_size_loop bb font mw (py_split txt) [] []))"
proof (cases "py_split txt = []")
  case True
  then show ?thesis by (simp add: wrap_text_for_size_def)
next
  case False
  then have "finish (wrap_for_size_loop bb font mw (py_split txt) [] []) \<noteq> []"
    by (simp add: wrap_loop_nonempty)
  with False show ?thesis
    by (auto simp: wrap_text_for_size_def finish_def Let_def split: prod.splits if_splits)
qed

lemma wrap_for_size_words:
  "py_split (join (wrap_text_for_size bb txt font mw)) = py_split txt"
  using wrap_loop_words [of "py_split txt" "[]" bb font mw "[]"] py_split_words [of "txt"]
  by (simp add: wrap_text_for_size_unfold py_split_join_lines)

lemma wrap_for_size_idem:
  "wrap_text_for_size bb (join (wrap_text_for_size bb txt font mw)) font mw
     = wrap_text_for_size bb txt font mw"
proof (cases "py_split txt = []")
  case True
  then show ?thesis by (simp add: wrap_text_for_size_unfold)
next
  case False
  have "py_split (join (wrap_text_for_size bb txt font mw)) = py_split txt"
    by (rule wrap_for_size_words)
  with False show ?thesis by (simp add: wrap_text_for_size_unfold)
qed

lemma wrap_loop_lines:
  assumes "list_all P words"
    and "\<And>l. bbox_width (bb font (0, 0) l) \<le> mw \<Longrightarrow> P l"
    and "list_all P lines"
    and "current_line = [] \<or> P (join current_line)"
  shows "list_all P (finish (wrap_for_size_loop bb font mw words lines current_line))"
  using assms(1,3,4)
proof (induction words arbitrary: lines current_line)
  case Nil
  then show ?case by (auto simp: finish_def)
next
  case (Cons word words)
  then show ?case using assms(2) by (auto simp: Let_def)
qed

lemma words_within_or_overlong:
  "list_all (within_or_overlong self bb font txt) (py_split txt)"
proof -
  have "within_or_overlong self bb font txt w" if "w \<in> set (py_split txt)" for w
  proof -
    from that py_split_words [of "txt"] have "is_word w" by (simp add: list_all_iff)
    then have "py_split w = [w]" by (rule py_split_word)
    with that show ?thesis
      by (auto simp: within_or_overlong_def Let_def)
  qed
  then show ?thesis by (simp add: list_all_iff)
qed

lemma wrap_text_lines:
  assumes "py_split txt \<noteq> []"
  shows "list_all (within_or_overlong self bb font txt) (wrap_text self bb txt font)"
proof -
  let ?mw = "width self - (padding_left self + padding_right self)"
  have "list_all (within_or_overlong self bb font txt)
          (finish (wrap_for_size_loop bb font ?mw (py_split txt) [] []))"
  proof (rule wrap_loop_lines)
    show "list_all (within_or_overlong self bb font txt) (py_split txt)"
      by (rule words_within_or_overlong)
    show "\<And>l. bbox_width (bb font (0, 0) l) \<le> ?mw \<Longrightarrow> within_or_overlong self bb font txt l"
      by (simp add: within_or_overlong_def)
    show "list_all (within_or_overlong self bb font txt) []" by simp
    show "[] = [] \<or> within_or_overlong self bb font txt (join [])" by simp
  qed
  with assms show ?thesis by (simp add: wrap_text_eq wrap_text_for_size_unfold)
qed

section \<open>Formatted wrapping: the shape of a line\<close>





section \<open>Automatic font size: the result of the search\<close>




section \<open>The claims on plain wrapping\<close>

text \<open>
  Claim C2, as amended. For a text with at least one word, every line of
  \<open>_wrap_text\<close> is within the width budget or is a single word of the text that
  is wider than the budget by itself; a text without a word comes back as its
  one line, whatever its width.
\<close>

theorem wrap_lines_within_budget:
  "(py_split txt \<noteq> [] \<longrightarrow>
      list_all (within_or_overlong self bb font txt) (wrap_text self bb txt font))
   \<and> (py_split txt = [] \<longrightarrow> wrap_text self bb txt font = [txt])"
proof -
  have "py_split txt \<noteq> [] \<Longrightarrow>
        list_all (within_or_overlong self bb font txt) (wrap_text self bb txt font)"
    by (rule wrap_text_lines)
  moreover have "py_split txt = [] \<Longrightarrow> wrap_text self bb txt font = [txt]"
    by (simp add: wrap_text_eq wrap_text_for_size_unfold)
  ultimately show ?thesis by blast
qed

theorem wrap_lines_within_budget_witness:
  "py_split ''the quick brown fox jumps'' \<noteq> []
   \<and> list_all (within_or_overlong display_generator mono_textbbox 24 ''the quick brown fox jumps'')
        (wrap_text display_generator mono_textbbox ''the quick brown fox jumps'' 24)
   \<and> py_split ''  '' = []
   \<and> wrap_text display_generator mono_textbbox ''  '' 24 = [''  '']"
proof -
  have a: "py_split ''the quick brown fox jumps'' \<noteq> []"
    by (simp add: py_split_def isspace_def)
  have b: "py_split ''  '' = []"
    by (simp add: py_split_def isspace_def)
  from a b
    wrap_lines_within_budget
      [of "''the quick brown fox jumps''" display_generator mono_textbbox 24]
    wrap_lines_within_budget [of "''  ''" display_generator mono_textbbox 24]
  show ?thesis by simp
qed

text \<open>
  The claim as stated fails on a text of blanks: at size 100 three blanks
  measure 300 pixels, the budget is 240, and the one line returned is no word.
\<close>

theorem wrap_blank_line_counterexample:
  "\<not> list_all (within_or_overlong display_generator mono_textbbox 100 ''   '')
       (wrap_text display_generator mono_textbbox ''   '' 100)"
  by (simp add: wrap_text_def py_split_def isspace_def within_or_overlong_def
      display_generator_def mono_textbbox_def bbox_width_def)

text \<open>
  Claim C7. Wrapping is idempotent: joining the lines of \<open>_wrap_text\<close> with
  single blanks and wrapping the result at the same width with the same
  measurer gives the same lines.
\<close>

theorem wrap_idempotent:
  "wrap_text self bb (join (wrap_text self bb txt font)) font = wrap_text self bb txt font"
  by (simp only: wrap_text_eq wrap_for_size_idem)

text \<open>
  Claim C10. Both wrapping functions keep the word sequence: splitting the
  joined lines gives the words of the text, and a text without a word comes
  back unchanged as the only line.
\<close>

theorem wrap_preserves_words:
  "py_split (join (wrap_text self bb txt font)) = py_split txt
   \<and> py_split (join (wrap_text_for_size bb txt font mw)) = py_split txt
   \<and> (py_split txt = [] \<longrightarrow>
        wrap_text self bb txt font = [txt] \<and> wrap_text_for_size bb txt font mw = [txt])"
proof -
  have "py_split (join (wrap_text self bb txt font)) = py_split txt"
    by (simp only: wrap_text_eq wrap_for_size_words)
  moreover have "py_split (join (wrap_text_for_size bb txt font mw)) = py_split txt"
    by (rule wrap_for_size_words)
  moreover have "py_split txt = [] \<Longrightarrow>
      wrap_text self bb txt font = [txt] \<and> wrap_text_for_size bb txt font mw = [txt]"
    by (simp add: wrap_text_eq wrap_text_for_size_unfold)
  ultimately show ?thesis by blast
qed

theorem wrap_preserves_words_witness:
  "py_split ''  '' = []
   \<and> wrap_text display_generator mono_textbbox ''  '' 24 = [''  '']
   \<and> wrap_text_for_size mono_textbbox ''  '' 24 220 = [''  '']"
proof -
  have "py_split ''  '' = []"
    by (simp add: py_split_def isspace_def)
  with wrap_preserves_words [of display_generator mono_textbbox "''  ''" 24 220]
  show ?thesis by simp
qed

section \<open>The claims on markup\<close>

text \<open>
  Claim C3. \<open>parse_html_formatting\<close> splits \<open><b>x</b> y\<close> at the closing tag:
  first the bold segment \<open>x\<close>, flushed with the flags in force before the tag
  is removed from the stack, then the plain segment of the blank and \<open>y\<close>.
\<close>

theorem parse_bold_then_plain:
  "parse_html_formatting ''<b>x</b> y'' =
     [\<lparr>text = ''x'', bold = True, italic = False, underline = False\<rparr>,
      \<lparr>text = '' y'', bold = False, italic = False, underline = False\<rparr>]"
  by (simp add: parse_html_formatting_def match_tag_def tag_letter_def isspace_def
      stack_segment_def slice_def lower_char_def Let_def)

text \<open>
  Claim C4. \<open>has_html_tags\<close> should hold exactly for the texts with an opening
  tag of one of the three kinds. On \<open><br>\<close> it holds, though the text has no
  such tag: the pattern of \<open>has_html_tags\<close> lets any characters follow the
  letter.
\<close>

theorem has_html_tags_line_break:
  "has_html_tags ''<br>'' \<and> \<not> contains_opening_tag ''<br>''"
  by (simp add: has_html_tags_def match_open_def tag_letter_def contains_opening_tag_def
      opening_tag_at_def match_tag_def isspace_def upt_rec Let_def)

section \<open>The claims on formatted text\<close>



text \<open>
  Claim C9. In \<open>_draw_formatted_line_segments\<close> the alignment \<open>justify\<close> draws
  what \<open>center\<close> draws: both start at half of the canvas width minus the width
  of the line, and the segments follow one another with no gap added.
\<close>

theorem formatted_justify_is_center:
  "draw_formatted_line_segments self bb gff segs y tc ''justify'' sw sc fp fs
     = draw_formatted_line_segments self bb gff segs y tc ''center'' sw sc fp fs
   \<and> draw_formatted_line_segments self bb gff segs y tc ''justify'' sw sc fp fs
     = draw_formatted_segments bb gff fp fs y tc sw sc segs
         ((width self - formatted_line_width bb gff fp fs segs 0) div 2)"
  by (simp add: draw_formatted_line_segments_def)

section \<open>Stroke settings: rounding and contrast\<close>


























section \<open>Justified lines: rounding and positions\<close>























end
